theory Spec2Isabelle
  imports Main
begin

section \<open>Platform strings\<close>

text \<open>
  A JavaScript string is a sequence of UTF-16 code units. The development covers the
  strings whose code units are below 256 (the Latin-1 block): a HOL \<^typ>\<open>char\<close> stands
  for one such code unit. On these strings \<^verbatim>\<open>String.prototype.trim\<close> and
  \<^verbatim>\<open>String.prototype.toLowerCase\<close> act code unit by code unit, as written below.
\<close>

text \<open>
  ECMAScript WhiteSpace and LineTerminator code points below 256: TAB, LF, VT, FF, CR,
  SPACE and NO-BREAK SPACE.
\<close>

definition isWhiteSpace :: "char \<Rightarrow> bool" where
  "isWhiteSpace c =
     (c \<in> set [CHR 0x09, CHR 0x0A, CHR 0x0B, CHR 0x0C, CHR 0x0D, CHR 0x20, CHR 0xA0])"

definition trim :: "string \<Rightarrow> string" where
  "trim s = rev (dropWhile isWhiteSpace (rev (dropWhile isWhiteSpace s)))"

text \<open>
  The upper-case letters below 256 are A..Z (65..90), the letters 192..214 and 216..222;
  each has its lower-case form 32 above it. Every other code unit is left as it is.
\<close>

definition lowerCodeUnit :: "char \<Rightarrow> char" where
  "lowerCodeUnit c =
     (let n = (of_char c :: nat) in
      if (65 \<le> n \<and> n \<le> 90) \<or> (192 \<le> n \<and> n \<le> 214) \<or> (216 \<le> n \<and> n \<le> 222)
      then char_of (n + 32) else c)"

definition toLowerCase :: "string \<Rightarrow> string" where
  "toLowerCase s = map lowerCodeUnit s"

section \<open>Constants (constants.ts)\<close>

definition LOCAL_STORAGE_HISTORY_KEY :: string where
  "LOCAL_STORAGE_HISTORY_KEY = ''englishBengaliSearchHistory''"

definition MAX_HISTORY_ITEMS :: nat where
  "MAX_HISTORY_ITEMS = 10"

section \<open>Run-time values, thrown errors and JSON\<close>

text \<open>
  The history cell is declared \<^verbatim>\<open>string[]\<close>, but the value that \<^verbatim>\<open>JSON.parse\<close>
  returns is stored in it unchecked, so the cell holds an arbitrary JSON value at run time.
  Numbers are IEEE doubles; no code of the program inspects one.
\<close>

typedecl js_number

datatype jsval =
    JNull
  | JBool bool
  | JNum js_number
  | JStr string
  | JArr "jsval list"
  | JObj "(string \<times> jsval) list"

datatype js_error = TypeError | SyntaxError | SecurityError | QuotaExceededError

text \<open>The value of a \<^verbatim>\<open>string[]\<close> at run time.\<close>

definition stringArray :: "string list \<Rightarrow> jsval" where
  "stringArray h = JArr (map JStr h)"

text \<open>
  \<^verbatim>\<open>JSON.stringify\<close> on an array of strings (QuoteJSONString of ECMAScript): the
  quote, the backslash and the control characters are escaped, every other code unit
  below 256 stands for itself.
\<close>

definition hexDigit :: "nat \<Rightarrow> char" where
  "hexDigit n = (if n < 10 then char_of (48 + n) else char_of (87 + n))"

definition quoteCodeUnit :: "char \<Rightarrow> string" where
  "quoteCodeUnit c =
     (if c = CHR 0x22 then [CHR 0x5C, CHR 0x22]
      else if c = CHR 0x5C then [CHR 0x5C, CHR 0x5C]
      else if c = CHR 0x08 then [CHR 0x5C, CHR ''b'']
      else if c = CHR 0x0C then [CHR 0x5C, CHR ''f'']
      else if c = CHR 0x0A then [CHR 0x5C, CHR ''n'']
      else if c = CHR 0x0D then [CHR 0x5C, CHR ''r'']
      else if c = CHR 0x09 then [CHR 0x5C, CHR ''t'']
      else if (of_char c :: nat) < 32
        then [CHR 0x5C, CHR ''u'', CHR ''0'', CHR ''0'',
              hexDigit ((of_char c :: nat) div 16), hexDigit ((of_char c :: nat) mod 16)]
      else [c])"

definition quoteJSONString :: "string \<Rightarrow> string" where
  "quoteJSONString s = [CHR 0x22] @ concat (map quoteCodeUnit s) @ [CHR 0x22]"

fun joinComma :: "string list \<Rightarrow> string" where
  "joinComma [] = []"
| "joinComma [s] = s"
| "joinComma (s # t # ss) = s @ '','' @ joinComma (t # ss)"

definition JSON_stringify :: "string list \<Rightarrow> string" where
  "JSON_stringify h = ''['' @ joinComma (map quoteJSONString h) @ '']''"

section \<open>Browser storage\<close>

text \<open>
  \<^verbatim>\<open>localStorage\<close>: the stored items, and the two ways the browser refuses an
  access. When \<open>blocked\<close>, every access throws a SecurityError (storage denied by policy);
  when \<open>exhausted\<close>, \<^verbatim>\<open>setItem\<close> throws a QuotaExceededError. Both are inputs of
  the model.
\<close>

record localStorage =
  items :: "string \<rightharpoonup> string"
  blocked :: bool
  exhausted :: bool

definition getItem :: "string \<Rightarrow> localStorage \<Rightarrow> js_error + string option" where
  "getItem k ls = (if blocked ls then Inl SecurityError else Inr (items ls k))"

definition setItem :: "string \<Rightarrow> string \<Rightarrow> localStorage \<Rightarrow> js_error + localStorage" where
  "setItem k v ls =
     (if blocked ls then Inl SecurityError
      else if exhausted ls then Inl QuotaExceededError
      else Inr (ls\<lparr>items := (items ls)(k \<mapsto> v)\<rparr>))"

definition removeItem :: "string \<Rightarrow> localStorage \<Rightarrow> js_error + localStorage" where
  "removeItem k ls =
     (if blocked ls then Inl SecurityError
      else Inr (ls\<lparr>items := (items ls)(k := None)\<rparr>))"

section \<open>Application state (types.ts and the state cells of App)\<close>

record TranslationEntry =
  englishWord :: string
  bengaliWord :: string
  partOfSpeech :: string
  pronunciation :: "string option"
  englishExample :: "string option"
  bengaliExample :: "string option"
  synonyms :: "string list option"
  antonyms :: "string list option"

text \<open>The five \<^verbatim>\<open>useState\<close> cells of the component, and the browser's storage.\<close>

record app =
  searchTerm :: string
  translationsState :: "TranslationEntry list option"
  isLoading :: bool
  error :: "string option"
  searchHistory :: jsval
  storage :: localStorage

definition initialApp :: "localStorage \<Rightarrow> app" where
  "initialApp ls =
     \<lparr>searchTerm = [], translationsState = None, isLoading = False, error = None,
      searchHistory = JArr [], storage = ls\<rparr>"

section \<open>Loading the history (the mount effect)\<close>

text \<open>
  The body of the \<^verbatim>\<open>try\<close> block: \<^verbatim>\<open>getItem\<close> and \<^verbatim>\<open>JSON.parse\<close> may throw.
  \<^verbatim>\<open>JSON.parse\<close> is the platform's and is a parameter: a function from the stored text
  to a SyntaxError or a value. A stored text is truthy when it is present and not empty.
\<close>

definition loadHistory_try :: "(string \<Rightarrow> js_error + jsval) \<Rightarrow> app \<Rightarrow> js_error + app" where
  "loadHistory_try JSON_parse st =
     (case getItem LOCAL_STORAGE_HISTORY_KEY (storage st) of
        Inl e \<Rightarrow> Inl e
      | Inr None \<Rightarrow> Inr st
      | Inr (Some storedHistory) \<Rightarrow>
          if storedHistory = [] then Inr st
          else (case JSON_parse storedHistory of
                  Inl e \<Rightarrow> Inl e
                | Inr v \<Rightarrow> Inr (st\<lparr>searchHistory := v\<rparr>)))"

text \<open>The \<^verbatim>\<open>catch\<close> block logs the error and installs the empty array.\<close>

definition loadHistory :: "(string \<Rightarrow> js_error + jsval) \<Rightarrow> app \<Rightarrow> js_error + app" where
  "loadHistory JSON_parse st =
     (case loadHistory_try JSON_parse st of
        Inl e \<Rightarrow> Inr (st\<lparr>searchHistory := JArr []\<rparr>)
      | Inr st' \<Rightarrow> Inr st')"

section \<open>Recording a search term (updateSearchHistory)\<close>

text \<open>
  \<^verbatim>\<open>prevHistory.filter(item => item.toLowerCase() !== lowercasedTermToAdd)\<close> over the
  elements of an array: an element that is not a string has no \<^verbatim>\<open>toLowerCase\<close>
  method, and calling it throws a TypeError.
\<close>

fun filterItems :: "string \<Rightarrow> jsval list \<Rightarrow> js_error + string list" where
  "filterItems l [] = Inr []"
| "filterItems l (JStr item # rest) =
     (case filterItems l rest of
        Inl e \<Rightarrow> Inl e
      | Inr kept \<Rightarrow> Inr (if toLowerCase item \<noteq> l then item # kept else kept))"
| "filterItems l (_ # rest) = Inl TypeError"

text \<open>
  The state updater passed to \<^verbatim>\<open>setSearchHistory\<close>. A previous value that is not an
  array has no callable \<^verbatim>\<open>filter\<close>: TypeError. A failing \<^verbatim>\<open>setItem\<close> is caught
  and logged, and the updated history is returned all the same.
\<close>

definition historyUpdater ::
  "string \<Rightarrow> jsval \<Rightarrow> localStorage \<Rightarrow> js_error + (jsval \<times> localStorage)" where
  "historyUpdater termToAdd prevHistory ls =
     (let lowercasedTermToAdd = toLowerCase termToAdd in
      case prevHistory of
        JArr elems \<Rightarrow>
          (case filterItems lowercasedTermToAdd elems of
             Inl e \<Rightarrow> Inl e
           | Inr filteredHistory \<Rightarrow>
               (let updatedHistory = take MAX_HISTORY_ITEMS (termToAdd # filteredHistory) in
                Inr (stringArray updatedHistory,
                     (case setItem LOCAL_STORAGE_HISTORY_KEY (JSON_stringify updatedHistory) ls of
                        Inl e \<Rightarrow> ls
                      | Inr ls' \<Rightarrow> ls'))))
      | _ \<Rightarrow> Inl TypeError)"

text \<open>
  The call only queues the updater: React runs it in the next render. The result is the
  state after that render, or the error the updater throws there. The program does not
  catch it, and React unmounts the component tree.
\<close>

definition updateSearchHistory :: "string \<Rightarrow> app \<Rightarrow> js_error + app" where
  "updateSearchHistory newTerm st =
     (let termToAdd = trim newTerm in
      if termToAdd = [] then Inr st
      else (case historyUpdater termToAdd (searchHistory st) (storage st) of
              Inl e \<Rightarrow> Inl e
            | Inr (h, ls) \<Rightarrow> Inr (st\<lparr>searchHistory := h, storage := ls\<rparr>)))"

section \<open>Clearing the history (handleClearHistory)\<close>

definition handleClearHistory :: "app \<Rightarrow> js_error + app" where
  "handleClearHistory st =
     Inr (st\<lparr>searchHistory := JArr [],
              storage := (case removeItem LOCAL_STORAGE_HISTORY_KEY (storage st) of
                            Inl e \<Rightarrow> storage st
                          | Inr ls' \<Rightarrow> ls')\<rparr>)"

section \<open>Searching (handleSearch)\<close>

text \<open>
  \<^verbatim>\<open>fetchTranslations\<close> is the external provider. Its outcome is an input of the
  model: the promise resolves to a list of entries, or rejects with a thrown value, which
  is an \<^verbatim>\<open>Error\<close> instance with its \<^verbatim>\<open>message\<close>, or any other value (a string, an
  object with a message of its own, ...).
\<close>

datatype thrown = ErrorInstance string | NotAnError jsval

datatype provider_outcome = Resolved "TranslationEntry list" | Rejected thrown

text \<open>
  The handler suspends at \<^verbatim>\<open>await fetchTranslations(trimmedTerm)\<close>. No statement of
  its first half throws (the result is always \<open>Inr\<close>): it either finishes without calling
  the provider, or queues the history updater and the other state changes and calls the
  provider with the trimmed term. \<open>AwaitingProvider\<close> carries that term and what the render
  after the call gives: the state shown while the provider is awaited, or the error of the
  queued updater, thrown in that render after the provider has been called.
\<close>

datatype search_step = Finished app | AwaitingProvider string "js_error + app"

definition handleSearch_submit :: "string \<Rightarrow> app \<Rightarrow> js_error + search_step" where
  "handleSearch_submit searchInput st =
     (let trimmedTerm = trim searchInput in
      if trimmedTerm = [] then
        Inr (Finished (st\<lparr>error := Some ''Please enter a word to search.'',
                           translationsState := None\<rparr>))
      else
        Inr (AwaitingProvider trimmedTerm
              (case updateSearchHistory trimmedTerm st of
                 Inl e \<Rightarrow> Inl e
               | Inr st1 \<Rightarrow>
                   Inr (st1\<lparr>searchTerm := trimmedTerm, isLoading := True, error := None,
                            translationsState := None\<rparr>))))"

definition notFoundMessage :: "string \<Rightarrow> string" where
  "notFoundMessage trimmedTerm =
     ''No translation found for '' @ [CHR 0x22] @ trimmedTerm @ [CHR 0x22] @ ''. Try another word.''"

definition unknownErrorMessage :: string where
  "unknownErrorMessage =
     ''An unknown error occurred. Please ensure your API key is set up correctly.''"

text \<open>The second half: the \<^verbatim>\<open>try\<close> body after the call, \<^verbatim>\<open>catch\<close> and \<^verbatim>\<open>finally\<close>.\<close>

definition handleSearch_settle :: "string \<Rightarrow> provider_outcome \<Rightarrow> app \<Rightarrow> app" where
  "handleSearch_settle trimmedTerm outcome st =
     (case outcome of
        Resolved results \<Rightarrow>
          (if length results = 0
           then st\<lparr>error := Some (notFoundMessage trimmedTerm), translationsState := None\<rparr>
           else st\<lparr>translationsState := Some results\<rparr>)
      | Rejected err \<Rightarrow>
          st\<lparr>error := Some (case err of
                                ErrorInstance message \<Rightarrow> message
                              | NotAnError v \<Rightarrow> unknownErrorMessage),
              translationsState := None\<rparr>)
     \<lparr>isLoading := False\<rparr>"

text \<open>
  The whole handler. When the render after the call has thrown, the tree is unmounted and
  the state changes of the second half have no effect: the outcome is that error.
\<close>

definition handleSearch :: "(string \<Rightarrow> provider_outcome) \<Rightarrow> string \<Rightarrow> app \<Rightarrow> js_error + app" where
  "handleSearch fetchTranslations searchInput st =
     (case handleSearch_submit searchInput st of
        Inl e \<Rightarrow> Inl e
      | Inr (Finished st') \<Rightarrow> Inr st'
      | Inr (AwaitingProvider trimmedTerm rendered) \<Rightarrow>
          (case rendered of
             Inl e \<Rightarrow> Inl e
           | Inr st' \<Rightarrow>
               Inr (handleSearch_settle trimmedTerm (fetchTranslations trimmedTerm) st')))"


section \<open>Sequences of history operations\<close>

datatype history_op = Record string | Clear

definition applyOp :: "history_op \<Rightarrow> app \<Rightarrow> js_error + app" where
  "applyOp a st = (case a of Record t \<Rightarrow> updateSearchHistory t st | Clear \<Rightarrow> handleClearHistory st)"

fun run :: "history_op list \<Rightarrow> app \<Rightarrow> js_error + app" where
  "run [] st = Inr st"
| "run (a # ops) st = (case applyOp a st of Inl e \<Rightarrow> Inl e | Inr st' \<Rightarrow> run ops st')"

section \<open>The specification's recency order\<close>

text \<open>
  Written from the specification's words, not from the code: the terms that count are the
  trimmed, non-empty terms recorded since the last clear; walking them from the newest to
  the oldest, a term is listed the first time its lower-case form is met. The result has
  the most recently recorded distinct term first, each with its latest casing.
\<close>

definition noteOp :: "string list \<Rightarrow> history_op \<Rightarrow> string list" where
  "noteOp newestFirst a =
     (case a of
        Clear \<Rightarrow> []
      | Record t \<Rightarrow> if trim t = [] then newestFirst else trim t # newestFirst)"

definition recordedNewestFirst :: "history_op list \<Rightarrow> string list" where
  "recordedNewestFirst ops = foldl noteOp [] ops"

fun firstOccurrences :: "string list \<Rightarrow> string list \<Rightarrow> string list" where
  "firstOccurrences seen [] = []"
| "firstOccurrences seen (t # older) =
     (if toLowerCase t \<in> set seen then firstOccurrences seen older
      else t # firstOccurrences (toLowerCase t # seen) older)"

definition recencyOrder :: "history_op list \<Rightarrow> string list" where
  "recencyOrder ops = firstOccurrences [] (recordedNewestFirst ops)"

section \<open>The updater on arrays of strings\<close>

text \<open>
  Two auxiliary views, used in the proofs: what lines 37 to 39 of the updater compute when
  the previous history is an array of strings, and the effect of one operation on such a
  history. Lemmas \<open>updateSearchHistory_strings\<close> and \<open>applyOp_strings\<close> below show that
  the functions above compute exactly these on a well-typed state.
\<close>

definition recordedHistory :: "string \<Rightarrow> string list \<Rightarrow> string list" where
  "recordedHistory t h =
     take MAX_HISTORY_ITEMS (t # filter (\<lambda>item. toLowerCase item \<noteq> toLowerCase t) h)"

definition historyStep :: "string list \<Rightarrow> history_op \<Rightarrow> string list" where
  "historyStep h a =
     (case a of
        Clear \<Rightarrow> []
      | Record t \<Rightarrow> if trim t = [] then h else recordedHistory (trim t) h)"

section \<open>Facts about trimming and lower-casing\<close>

lemma dropWhile_rev_keep:
  assumes "ys = [] \<or> \<not> P (hd ys)"
  shows "dropWhile P (rev (dropWhile P (rev ys))) = rev (dropWhile P (rev ys))"
proof (cases "dropWhile P (rev ys)")
  case Nil
  then show ?thesis by (metis dropWhile.simps(1) rev.simps(1))
next
  case (Cons z zs)
  have "rev ys = takeWhile P (rev ys) @ dropWhile P (rev ys)" by simp
  then have "ys = rev (dropWhile P (rev ys)) @ rev (takeWhile P (rev ys))"
    by (metis rev_append rev_rev_ident)
  with Cons have "hd ys = hd (rev (dropWhile P (rev ys)))"
    by (metis hd_append2 rev_is_Nil_conv list.distinct(1))
  moreover from Cons have "ys \<noteq> []" by auto
  ultimately have "\<not> P (hd (rev (dropWhile P (rev ys))))"
    using assms by simp
  moreover from Cons have "rev (dropWhile P (rev ys)) \<noteq> []" by simp
  ultimately show ?thesis
    by (metis dropWhile.simps(2) list.collapse)
qed

lemma trim_trim: "trim (trim s) = trim s"
proof -
  have "dropWhile isWhiteSpace s = [] \<or> \<not> isWhiteSpace (hd (dropWhile isWhiteSpace s))"
    by (metis hd_dropWhile)
  then show ?thesis
    unfolding trim_def by (simp add: dropWhile_rev_keep)
qed

lemma trim_Nil_iff: "(trim s = []) = list_all isWhiteSpace s"
proof
  assume "trim s = []"
  then have a: "\<forall>x\<in>set (dropWhile isWhiteSpace s). isWhiteSpace x"
    by (simp add: trim_def)
  have "dropWhile isWhiteSpace s = []"
  proof (rule ccontr)
    assume n: "dropWhile isWhiteSpace s \<noteq> []"
    then have "\<not> isWhiteSpace (hd (dropWhile isWhiteSpace s))" by (rule hd_dropWhile)
    with a n show False by (meson hd_in_set)
  qed
  then show "list_all isWhiteSpace s" by (simp add: list_all_iff)
next
  assume "list_all isWhiteSpace s"
  then have "dropWhile isWhiteSpace s = []" by (simp add: list_all_iff)
  then show "trim s = []" unfolding trim_def by (metis dropWhile.simps(1) rev.simps(1))
qed

lemma isWhiteSpace_code:
  "isWhiteSpace c = ((of_char c :: nat) \<in> {9, 10, 11, 12, 13, 32, 160})"
proof -
  have "\<And>d. (c = d) = ((of_char c :: nat) = of_char d)" by simp
  then show ?thesis unfolding isWhiteSpace_def by (simp del: of_char_eq_iff)
qed

lemma isWhiteSpace_lowerCodeUnit: "isWhiteSpace (lowerCodeUnit c) = isWhiteSpace c"
  unfolding isWhiteSpace_code lowerCodeUnit_def Let_def by auto

lemma trim_toLowerCase: "trim (toLowerCase s) = toLowerCase (trim s)"
proof -
  have c: "isWhiteSpace \<circ> lowerCodeUnit = isWhiteSpace"
    by (rule ext) (simp add: isWhiteSpace_lowerCodeUnit)
  show ?thesis
    by (simp add: trim_def toLowerCase_def dropWhile_map rev_map c)
qed

lemma toLowerCase_Nil_iff [simp]: "(toLowerCase s = []) = (s = [])"
  by (simp add: toLowerCase_def)

section \<open>Facts about lists\<close>

lemma take_filter_take:
  "distinct (map f xs) \<Longrightarrow>
   take n (filter (\<lambda>x. f x \<noteq> k) (take (Suc n) xs)) = take n (filter (\<lambda>x. f x \<noteq> k) xs)"
proof (induction xs arbitrary: n)
  case Nil
  then show ?case by simp
next
  case (Cons x xs)
  show ?case
  proof (cases "f x = k")
    case True
    with Cons.prems have "\<forall>y\<in>set xs. f y \<noteq> k" by (auto simp: image_iff)
    then have "filter (\<lambda>x. f x \<noteq> k) xs = xs" "filter (\<lambda>x. f x \<noteq> k) (take n xs) = take n xs"
      by (auto simp: filter_id_conv dest: in_set_takeD)
    with True show ?thesis by simp
  next
    case False
    with Cons show ?thesis by (cases n) simp_all
  qed
qed

lemma filter_take_filter: "filter P (take n (filter P xs)) = take n (filter P xs)"
  by (rule filter_True) (auto dest: in_set_takeD)

lemma firstOccurrences_filter:
  "firstOccurrences seen ts = filter (\<lambda>u. toLowerCase u \<notin> set seen) (firstOccurrences [] ts)"
proof (induction ts arbitrary: seen)
  case Nil
  then show ?case by simp
next
  case (Cons t ts)
  have a: "firstOccurrences [toLowerCase t] ts =
      filter (\<lambda>u. toLowerCase u \<notin> set [toLowerCase t]) (firstOccurrences [] ts)"
    by (rule Cons.IH)
  show ?case
    by (simp add: a Cons.IH [of seen] Cons.IH [of "toLowerCase t # seen"] cong: filter_cong)
       (auto intro: filter_cong)
qed

lemma firstOccurrences_distinct:
  "distinct (map toLowerCase (firstOccurrences seen ts)) \<and>
   toLowerCase ` set (firstOccurrences seen ts) \<inter> set seen = {}"
  by (induction ts arbitrary: seen) (auto, force+)

lemma recencyOrder_distinct: "distinct (map toLowerCase (recencyOrder ops))"
  by (simp add: recencyOrder_def firstOccurrences_distinct)

section \<open>The functions on a well-typed state\<close>

text \<open>
  On a state whose history is an array of strings the updater never throws, and the
  functions of the program compute the auxiliary views.
\<close>

lemma stringArray_inject [simp]: "(stringArray h = stringArray h') = (h = h')"
  by (simp add: stringArray_def inj_map_eq_map inj_on_def)

lemma filterItems_strings:
  "filterItems l (map JStr h) = Inr (filter (\<lambda>item. toLowerCase item \<noteq> l) h)"
  by (induction h) simp_all

lemma historyUpdater_strings:
  "historyUpdater t (stringArray h) ls =
     Inr (stringArray (take MAX_HISTORY_ITEMS (t # filter (\<lambda>item. toLowerCase item \<noteq> toLowerCase t) h)),
          (case setItem LOCAL_STORAGE_HISTORY_KEY
                  (JSON_stringify (take MAX_HISTORY_ITEMS (t # filter (\<lambda>item. toLowerCase item \<noteq> toLowerCase t) h))) ls of
             Inl e \<Rightarrow> ls | Inr ls' \<Rightarrow> ls'))"
  by (simp add: historyUpdater_def stringArray_def filterItems_strings Let_def)

lemma updateSearchHistory_strings:
  assumes "searchHistory st = stringArray h"
  shows "\<exists>ls'. updateSearchHistory t st =
           Inr (st\<lparr>searchHistory := stringArray (historyStep h (Record t)), storage := ls'\<rparr>)"
proof (cases "trim t = []")
  case True
  with assms have "updateSearchHistory t st =
      Inr (st\<lparr>searchHistory := stringArray (historyStep h (Record t)), storage := storage st\<rparr>)"
    by (simp add: updateSearchHistory_def historyStep_def)
  then show ?thesis ..
next
  case False
  with assms have "updateSearchHistory t st =
      Inr (st\<lparr>searchHistory := stringArray (historyStep h (Record t)),
              storage := (case setItem LOCAL_STORAGE_HISTORY_KEY
                                 (JSON_stringify (recordedHistory (trim t) h)) (storage st) of
                            Inl e \<Rightarrow> storage st | Inr ls' \<Rightarrow> ls')\<rparr>)"
    by (simp add: updateSearchHistory_def historyStep_def recordedHistory_def
        historyUpdater_strings Let_def)
  then show ?thesis by blast
qed

lemma handleClearHistory_strings:
  "\<exists>ls'. handleClearHistory st = Inr (st\<lparr>searchHistory := stringArray [], storage := ls'\<rparr>)"
proof -
  have "handleClearHistory st =
      Inr (st\<lparr>searchHistory := stringArray [],
              storage := (case removeItem LOCAL_STORAGE_HISTORY_KEY (storage st) of
                            Inl e \<Rightarrow> storage st | Inr ls' \<Rightarrow> ls')\<rparr>)"
    by (simp add: handleClearHistory_def stringArray_def)
  then show ?thesis by blast
qed

lemma applyOp_strings:
  assumes "searchHistory st = stringArray h"
  shows "\<exists>ls'. applyOp a st =
           Inr (st\<lparr>searchHistory := stringArray (historyStep h a), storage := ls'\<rparr>)"
proof (cases a)
  case (Record t)
  with updateSearchHistory_strings [OF assms, of t] show ?thesis
    by (simp add: applyOp_def)
next
  case Clear
  with handleClearHistory_strings [of st] show ?thesis
    by (simp add: applyOp_def historyStep_def)
qed

lemma run_strings:
  "searchHistory st = stringArray h \<Longrightarrow>
   \<exists>ls'. run ops st = Inr (st\<lparr>searchHistory := stringArray (foldl historyStep h ops), storage := ls'\<rparr>)"
proof (induction ops arbitrary: st h)
  case Nil
  then have "run [] st = Inr (st\<lparr>searchHistory := stringArray (foldl historyStep h []), storage := storage st\<rparr>)"
    by simp
  then show ?case ..
next
  case (Cons a ops)
  from applyOp_strings [OF Cons.prems, of a] obtain ls1 where
    a: "applyOp a st = Inr (st\<lparr>searchHistory := stringArray (historyStep h a), storage := ls1\<rparr>)" ..
  let ?st1 = "st\<lparr>searchHistory := stringArray (historyStep h a), storage := ls1\<rparr>"
  have "searchHistory ?st1 = stringArray (historyStep h a)" by simp
  from Cons.IH [OF this] obtain ls2 where
    "run ops ?st1 = Inr (?st1\<lparr>searchHistory := stringArray (foldl historyStep (historyStep h a) ops), storage := ls2\<rparr>)" ..
  with a have "run (a # ops) st =
      Inr (st\<lparr>searchHistory := stringArray (foldl historyStep h (a # ops)), storage := ls2\<rparr>)"
    by simp
  then show ?case ..
qed

lemma MAX_HISTORY_ITEMS_Suc: "MAX_HISTORY_ITEMS = Suc 9"
  by (simp add: MAX_HISTORY_ITEMS_def)

lemma recordedHistory_Cons:
  "recordedHistory t h = t # take 9 (filter (\<lambda>item. toLowerCase item \<noteq> toLowerCase t) h)"
  by (simp add: recordedHistory_def MAX_HISTORY_ITEMS_Suc)

lemma recordedHistory_take:
  assumes "distinct (map toLowerCase L)"
  shows "recordedHistory t (take MAX_HISTORY_ITEMS L) =
         take MAX_HISTORY_ITEMS (t # filter (\<lambda>u. toLowerCase u \<noteq> toLowerCase t) L)"
proof -
  have "take 9 (filter (\<lambda>u. toLowerCase u \<noteq> toLowerCase t) (take (Suc 9) L)) =
        take 9 (filter (\<lambda>u. toLowerCase u \<noteq> toLowerCase t) L)"
    using assms by (rule take_filter_take)
  then show ?thesis
    by (simp add: recordedHistory_def MAX_HISTORY_ITEMS_def)
qed

lemma foldl_historyStep_recency:
  "foldl historyStep [] ops = take MAX_HISTORY_ITEMS (recencyOrder ops)"
proof (induction ops rule: rev_induct)
  case Nil
  then show ?case by (simp add: recencyOrder_def recordedNewestFirst_def)
next
  case (snoc a ops)
  show ?case
  proof (cases a)
    case Clear
    then show ?thesis
      by (simp add: historyStep_def recencyOrder_def recordedNewestFirst_def noteOp_def)
  next
    case (Record t)
    show ?thesis
    proof (cases "trim t = []")
      case True
      with Record snoc show ?thesis
        by (simp add: historyStep_def recencyOrder_def recordedNewestFirst_def noteOp_def)
    next
      case False
      have "recencyOrder (ops @ [a]) =
            trim t # filter (\<lambda>u. toLowerCase u \<noteq> toLowerCase (trim t)) (recencyOrder ops)"
        using False Record
        by (simp add: recencyOrder_def recordedNewestFirst_def noteOp_def
            firstOccurrences_filter [of "[toLowerCase (trim t)]"])
      with False Record snoc show ?thesis
        by (simp add: historyStep_def recordedHistory_take recencyOrder_distinct)
    qed
  qed
qed

lemma record_twice:
  assumes "toLowerCase t' = toLowerCase t"
  shows "recordedHistory t' (recordedHistory t h) =
         t' # take 9 (filter (\<lambda>item. toLowerCase item \<noteq> toLowerCase t) h)"
  using assms by (simp add: recordedHistory_Cons filter_take_filter)

lemma historyStep_invariant:
  assumes "distinct (map toLowerCase h)"
  shows "distinct (map toLowerCase (historyStep h a))"
    and "length (historyStep h a) \<le> MAX_HISTORY_ITEMS \<or> length (historyStep h a) \<le> length h"
proof -
  have d: "distinct (map toLowerCase (take 9 (filter (\<lambda>item. toLowerCase item \<noteq> k) h)))" for k
    using assms by (simp add: take_map [symmetric] distinct_map_filter)
  have n: "k \<notin> toLowerCase ` set (take 9 (filter (\<lambda>item. toLowerCase item \<noteq> k) h))" for k
    by (auto dest!: in_set_takeD)
  show "distinct (map toLowerCase (historyStep h a))"
    using assms d n by (cases a) (simp_all add: historyStep_def recordedHistory_Cons)
  show "length (historyStep h a) \<le> MAX_HISTORY_ITEMS \<or> length (historyStep h a) \<le> length h"
    by (cases a) (simp_all add: historyStep_def recordedHistory_def)
qed

text \<open>
  A submitted term that is not blank reaches the provider, with its trimmed form, whatever
  the history cell holds.
\<close>

lemma handleSearch_submit_calls_provider:
  "trim t \<noteq> [] \<Longrightarrow> \<exists>rendered. handleSearch_submit t st = Inr (AwaitingProvider (trim t) rendered)"
  by (simp add: handleSearch_submit_def Let_def)

section \<open>The history invariant\<close>

text \<open>
  Claim C1. Starting from the empty history, after any sequence of record and clear
  operations the history is an array of strings of which no two are equal ignoring case,
  it has at most \<open>MAX_HISTORY_ITEMS\<close> = 10 entries, and it is the specification's recency
  order of the operations, cut at 10: the most recently recorded distinct term first.
  Moreover each single operation keeps the first two properties, from any history that
  has them.
\<close>

theorem history_invariant:
  "(\<exists>st' h. run ops (st\<lparr>searchHistory := JArr []\<rparr>) = Inr st' \<and>
      searchHistory st' = stringArray h \<and>
      distinct (map toLowerCase h) \<and>
      length h \<le> MAX_HISTORY_ITEMS \<and>
      h = take MAX_HISTORY_ITEMS (recencyOrder ops)) \<and>
   (distinct (map toLowerCase h) \<and> length h \<le> MAX_HISTORY_ITEMS \<longrightarrow>
    (\<exists>st' h'. applyOp a (st\<lparr>searchHistory := stringArray h\<rparr>) = Inr st' \<and>
       searchHistory st' = stringArray h' \<and>
       distinct (map toLowerCase h') \<and>
       length h' \<le> MAX_HISTORY_ITEMS))"
proof (intro conjI impI)
  have "searchHistory (st\<lparr>searchHistory := JArr []\<rparr>) = stringArray []"
    by (simp add: stringArray_def)
  from run_strings [OF this, of ops] obtain st' where
    r: "run ops (st\<lparr>searchHistory := JArr []\<rparr>) = Inr st'"
    and h: "searchHistory st' = stringArray (foldl historyStep [] ops)"
    by force
  let ?h = "take MAX_HISTORY_ITEMS (recencyOrder ops)"
  have "distinct (map toLowerCase ?h)"
    using recencyOrder_distinct [of ops] by (simp add: take_map [symmetric])
  moreover have "length ?h \<le> MAX_HISTORY_ITEMS" by simp
  ultimately show "\<exists>st' h. run ops (st\<lparr>searchHistory := JArr []\<rparr>) = Inr st' \<and>
      searchHistory st' = stringArray h \<and> distinct (map toLowerCase h) \<and>
      length h \<le> MAX_HISTORY_ITEMS \<and> h = take MAX_HISTORY_ITEMS (recencyOrder ops)"
    using r h by (simp add: foldl_historyStep_recency)
next
  assume i: "distinct (map toLowerCase h) \<and> length h \<le> MAX_HISTORY_ITEMS"
  have "searchHistory (st\<lparr>searchHistory := stringArray h\<rparr>) = stringArray h" by simp
  from applyOp_strings [OF this, of a] obtain st' where
    "applyOp a (st\<lparr>searchHistory := stringArray h\<rparr>) = Inr st'"
    "searchHistory st' = stringArray (historyStep h a)"
    by force
  moreover from i historyStep_invariant [of h a]
  have "distinct (map toLowerCase (historyStep h a))" "length (historyStep h a) \<le> MAX_HISTORY_ITEMS"
    by auto
  ultimately show "\<exists>st' h'. applyOp a (st\<lparr>searchHistory := stringArray h\<rparr>) = Inr st' \<and>
       searchHistory st' = stringArray h' \<and> distinct (map toLowerCase h') \<and>
       length h' \<le> MAX_HISTORY_ITEMS"
    by blast
qed

text \<open>The theorem at a concrete run and a concrete step.\<close>

theorem history_invariant_witness:
  "(\<exists>st'. run [Record ''hello'', Record ''World'', Clear, Record ''a'', Record '' A '']
       (initialApp \<lparr>items = Map.empty, blocked = False, exhausted = False\<rparr>) = Inr st' \<and>
      searchHistory st' = stringArray [''A'']) \<and>
   distinct (map toLowerCase [''b'', ''a'']) \<and>
   length [''b'', ''a''] \<le> MAX_HISTORY_ITEMS \<and>
   (\<exists>st' h'. applyOp (Record ''B'')
       (initialApp \<lparr>items = Map.empty, blocked = False, exhausted = False\<rparr>
          \<lparr>searchHistory := stringArray [''b'', ''a'']\<rparr>) = Inr st' \<and>
      searchHistory st' = stringArray h' \<and>
      distinct (map toLowerCase h') \<and>
      length h' \<le> MAX_HISTORY_ITEMS)"
proof -
  let ?st = "initialApp \<lparr>items = Map.empty, blocked = False, exhausted = False\<rparr>"
  have e: "?st\<lparr>searchHistory := JArr []\<rparr> = ?st"
    by (simp add: initialApp_def)
  have r: "take MAX_HISTORY_ITEMS
      (recencyOrder [Record ''hello'', Record ''World'', Clear, Record ''a'', Record '' A '']) = [''A'']"
    by code_simp
  have d: "distinct (map toLowerCase [''b'', ''a''])" by code_simp
  have l: "length [''b'', ''a''] \<le> MAX_HISTORY_ITEMS" by (simp add: MAX_HISTORY_ITEMS_def)
  from history_invariant [where st = ?st and h = "[''b'', ''a'']" and a = "Record ''B''"
      and ops = "[Record ''hello'', Record ''World'', Clear, Record ''a'', Record '' A '']"]
    d l
  show ?thesis unfolding e r by auto
qed

text \<open>
  Claim C2. From an empty history, recording "hello", then "World", then "HELLO" leaves
  exactly the history ["HELLO", "World"].
\<close>

theorem scenario_hello_World_HELLO:
  "\<exists>st'. run [Record ''hello'', Record ''World'', Record ''HELLO''] (st\<lparr>searchHistory := JArr []\<rparr>) = Inr st' \<and>
     searchHistory st' = stringArray [''HELLO'', ''World'']"
proof -
  have "searchHistory (st\<lparr>searchHistory := JArr []\<rparr>) = stringArray []"
    by (simp add: stringArray_def)
  from run_strings [OF this, of "[Record ''hello'', Record ''World'', Record ''HELLO'']"]
  obtain st' where
    r: "run [Record ''hello'', Record ''World'', Record ''HELLO''] (st\<lparr>searchHistory := JArr []\<rparr>) = Inr st'"
    and h: "searchHistory st' =
      stringArray (foldl historyStep [] [Record ''hello'', Record ''World'', Record ''HELLO''])"
    by force
  have "foldl historyStep [] [Record ''hello'', Record ''World'', Record ''HELLO''] =
        [''HELLO'', ''World'']"
    by code_simp
  with r h show ?thesis by simp
qed

section \<open>Recording a term\<close>

text \<open>
  Claim C3 as stated fails on terms that are blank or not trimmed: the recorded entry is
  the trimmed term, and a blank term records nothing. Recording " a" and then " A" leaves
  ["A"], whose first element is not " A"; recording " " twice leaves the empty history,
  which has no first element.
\<close>

theorem record_again_counterexample:
  "map_sum id searchHistory
     (run [Record '' a'', Record '' A'']
        (initialApp \<lparr>items = Map.empty, blocked = False, exhausted = False\<rparr>)) =
     Inr (stringArray [''A'']) \<and>
   map_sum id searchHistory
     (run [Record '' '', Record '' '']
        (initialApp \<lparr>items = Map.empty, blocked = False, exhausted = False\<rparr>)) =
     Inr (stringArray [])"
proof -
  have t: "trim '' a'' = ''a''" "trim '' A'' = ''A''" "trim '' '' = []"
    by (simp_all add: trim_def isWhiteSpace_def)
  have l: "toLowerCase ''a'' = ''a''" "toLowerCase ''A'' = ''a''"
    by code_simp+
  show ?thesis
    by (simp add: applyOp_def updateSearchHistory_def historyUpdater_def initialApp_def t l
        MAX_HISTORY_ITEMS_def stringArray_def Let_def setItem_def)
qed

text \<open>
  Claim C3, amended. For every history that is an array of strings and all terms T and T'
  that are equal ignoring case, recording T and then T' gives a history of the same length
  as recording T alone. When the trimmed T' is empty both histories are the one before;
  otherwise the trimmed T' is the first element and no other entry equals it ignoring
  case.
\<close>

theorem record_again_ignoring_case:
  assumes "toLowerCase T' = toLowerCase T"
  shows "\<exists>s1 s2 h1 h2.
     run [Record T] (st\<lparr>searchHistory := stringArray h\<rparr>) = Inr s1 \<and>
     run [Record T, Record T'] (st\<lparr>searchHistory := stringArray h\<rparr>) = Inr s2 \<and>
     searchHistory s1 = stringArray h1 \<and> searchHistory s2 = stringArray h2 \<and>
     length h2 = length h1 \<and>
     (if trim T' = [] then h1 = h \<and> h2 = h
      else \<exists>rest. h2 = trim T' # rest \<and> toLowerCase (trim T') \<notin> set (map toLowerCase rest))"
proof -
  let ?st = "st\<lparr>searchHistory := stringArray h\<rparr>"
  have e: "searchHistory ?st = stringArray h" by simp
  from run_strings [OF e, of "[Record T]"] obtain s1 where
    r1: "run [Record T] ?st = Inr s1"
    and h1: "searchHistory s1 = stringArray (foldl historyStep h [Record T])"
    by force
  from run_strings [OF e, of "[Record T, Record T']"] obtain s2 where
    r2: "run [Record T, Record T'] ?st = Inr s2"
    and h2: "searchHistory s2 = stringArray (foldl historyStep h [Record T, Record T'])"
    by force
  have l: "toLowerCase (trim T') = toLowerCase (trim T)"
    using assms by (simp add: trim_toLowerCase [symmetric])
  then have n: "(trim T' = []) = (trim T = [])"
    by (metis toLowerCase_Nil_iff)
  have "length (foldl historyStep h [Record T, Record T']) = length (foldl historyStep h [Record T])"
    using l n by (auto simp: historyStep_def record_twice) (simp add: recordedHistory_Cons)
  moreover have "if trim T' = []
      then foldl historyStep h [Record T] = h \<and> foldl historyStep h [Record T, Record T'] = h
      else \<exists>rest. foldl historyStep h [Record T, Record T'] = trim T' # rest \<and>
             toLowerCase (trim T') \<notin> set (map toLowerCase rest)"
    using l n by (auto simp: historyStep_def record_twice dest!: in_set_takeD)
  ultimately show ?thesis
    using r1 r2 h1 h2 by blast
qed

text \<open>The theorem at T = "hello", T' = "HELLO" and the history ["World"].\<close>

theorem record_again_ignoring_case_witness:
  "toLowerCase ''HELLO'' = toLowerCase ''hello'' \<and>
   (\<exists>s1 s2 h1 h2.
      run [Record ''hello'']
        (initialApp \<lparr>items = Map.empty, blocked = False, exhausted = False\<rparr>
           \<lparr>searchHistory := stringArray [''World'']\<rparr>) = Inr s1 \<and>
      run [Record ''hello'', Record ''HELLO'']
        (initialApp \<lparr>items = Map.empty, blocked = False, exhausted = False\<rparr>
           \<lparr>searchHistory := stringArray [''World'']\<rparr>) = Inr s2 \<and>
      searchHistory s1 = stringArray h1 \<and> searchHistory s2 = stringArray h2 \<and>
      length h2 = length h1 \<and>
      (\<exists>rest. h2 = ''HELLO'' # rest \<and> toLowerCase ''HELLO'' \<notin> set (map toLowerCase rest)))"
proof -
  have l: "toLowerCase ''HELLO'' = toLowerCase ''hello''" by code_simp
  have t: "trim ''HELLO'' = ''HELLO''" by (simp add: trim_def isWhiteSpace_def)
  from record_again_ignoring_case [OF l,
      where st = "initialApp \<lparr>items = Map.empty, blocked = False, exhausted = False\<rparr>"
        and h = "[''World'']"]
  show ?thesis
    by (simp only: t l list.simps if_False simp_thms)
qed

text \<open>
  Claim C4. From the empty history, after any sequence of recorded terms the history has
  at most 10 entries. Recording a term whose trimmed form is not empty and differs,
  ignoring case, from each of the 10 entries of a full history puts it first and drops the
  last entry; the other nine keep their order.
\<close>

theorem length_bound_and_eviction:
  "(\<exists>st' h. run (map Record ts) (st\<lparr>searchHistory := JArr []\<rparr>) = Inr st' \<and>
      searchHistory st' = stringArray h \<and> length h \<le> MAX_HISTORY_ITEMS) \<and>
   (length h = MAX_HISTORY_ITEMS \<and> trim t \<noteq> [] \<and>
    toLowerCase (trim t) \<notin> set (map toLowerCase h) \<longrightarrow>
    (\<exists>st'. updateSearchHistory t (st\<lparr>searchHistory := stringArray h\<rparr>) = Inr st' \<and>
       searchHistory st' = stringArray (trim t # butlast h)))"
proof (intro conjI impI)
  have "searchHistory (st\<lparr>searchHistory := JArr []\<rparr>) = stringArray []"
    by (simp add: stringArray_def)
  from run_strings [OF this, of "map Record ts"] obtain st' where
    "run (map Record ts) (st\<lparr>searchHistory := JArr []\<rparr>) = Inr st'"
    "searchHistory st' = stringArray (foldl historyStep [] (map Record ts))"
    by force
  then show "\<exists>st' h. run (map Record ts) (st\<lparr>searchHistory := JArr []\<rparr>) = Inr st' \<and>
      searchHistory st' = stringArray h \<and> length h \<le> MAX_HISTORY_ITEMS"
    by (simp add: foldl_historyStep_recency)
next
  assume a: "length h = MAX_HISTORY_ITEMS \<and> trim t \<noteq> [] \<and>
    toLowerCase (trim t) \<notin> set (map toLowerCase h)"
  then have "filter (\<lambda>item. toLowerCase item \<noteq> toLowerCase (trim t)) h = h"
    by (auto simp: filter_id_conv image_iff)
  with a have "historyStep h (Record t) = trim t # butlast h"
    by (simp add: historyStep_def recordedHistory_Cons butlast_conv_take MAX_HISTORY_ITEMS_Suc)
  moreover have "searchHistory (st\<lparr>searchHistory := stringArray h\<rparr>) = stringArray h" by simp
  from updateSearchHistory_strings [OF this, of t] obtain st' where
    "updateSearchHistory t (st\<lparr>searchHistory := stringArray h\<rparr>) = Inr st'"
    "searchHistory st' = stringArray (historyStep h (Record t))"
    by force
  ultimately show "\<exists>st'. updateSearchHistory t (st\<lparr>searchHistory := stringArray h\<rparr>) = Inr st' \<and>
       searchHistory st' = stringArray (trim t # butlast h)"
    by simp
qed

text \<open>The theorem at a full history "j" ... "a" and the new term "k".\<close>

theorem length_bound_and_eviction_witness:
  "length [''j'', ''i'', ''h'', ''g'', ''f'', ''e'', ''d'', ''c'', ''b'', ''a''] = MAX_HISTORY_ITEMS \<and>
   trim ''k'' \<noteq> [] \<and>
   toLowerCase (trim ''k'') \<notin>
     set (map toLowerCase [''j'', ''i'', ''h'', ''g'', ''f'', ''e'', ''d'', ''c'', ''b'', ''a'']) \<and>
   (\<exists>st'. updateSearchHistory ''k''
       (initialApp \<lparr>items = Map.empty, blocked = False, exhausted = False\<rparr>
          \<lparr>searchHistory :=
             stringArray [''j'', ''i'', ''h'', ''g'', ''f'', ''e'', ''d'', ''c'', ''b'', ''a'']\<rparr>) = Inr st' \<and>
      searchHistory st' =
        stringArray [''k'', ''j'', ''i'', ''h'', ''g'', ''f'', ''e'', ''d'', ''c'', ''b''])"
proof -
  have a: "length [''j'', ''i'', ''h'', ''g'', ''f'', ''e'', ''d'', ''c'', ''b'', ''a''] = MAX_HISTORY_ITEMS"
    by (simp add: MAX_HISTORY_ITEMS_def)
  have t: "trim ''k'' = ''k''" by (simp add: trim_def isWhiteSpace_def)
  have b: "toLowerCase (trim ''k'') \<notin>
     set (map toLowerCase [''j'', ''i'', ''h'', ''g'', ''f'', ''e'', ''d'', ''c'', ''b'', ''a''])"
    unfolding t by code_simp
  from length_bound_and_eviction [where ts = "[]"
      and st = "initialApp \<lparr>items = Map.empty, blocked = False, exhausted = False\<rparr>"
      and h = "[''j'', ''i'', ''h'', ''g'', ''f'', ''e'', ''d'', ''c'', ''b'', ''a'']" and t = "''k''"] a b
  show ?thesis by (simp add: t)
qed

text \<open>
  Claim C5. For every non-empty trimmed term T and every history that is an array of
  strings, after recording T the first element of the history is T itself, in its own
  casing.
\<close>

theorem recorded_term_first:
  assumes "trim T = T" and "T \<noteq> []"
  shows "\<exists>st' rest. updateSearchHistory T (st\<lparr>searchHistory := stringArray h\<rparr>) = Inr st' \<and>
     searchHistory st' = stringArray (T # rest)"
proof -
  have "searchHistory (st\<lparr>searchHistory := stringArray h\<rparr>) = stringArray h" by simp
  from updateSearchHistory_strings [OF this, of T] obtain st' where
    "updateSearchHistory T (st\<lparr>searchHistory := stringArray h\<rparr>) = Inr st'"
    "searchHistory st' = stringArray (historyStep h (Record T))"
    by force
  moreover from assms have "historyStep h (Record T) =
      T # take 9 (filter (\<lambda>item. toLowerCase item \<noteq> toLowerCase T) h)"
    by (simp add: historyStep_def recordedHistory_Cons)
  ultimately show ?thesis by simp
qed

text \<open>The theorem at T = "Water" and the history ["fire", "water"].\<close>

theorem recorded_term_first_witness:
  "trim ''Water'' = ''Water'' \<and>
   (\<exists>st' rest. updateSearchHistory ''Water''
       (initialApp \<lparr>items = Map.empty, blocked = False, exhausted = False\<rparr>
          \<lparr>searchHistory := stringArray [''fire'', ''water'']\<rparr>) = Inr st' \<and>
      searchHistory st' = stringArray (''Water'' # rest))"
proof -
  have t: "trim ''Water'' = ''Water''" by (simp add: trim_def isWhiteSpace_def)
  from recorded_term_first [OF t,
      where st = "initialApp \<lparr>items = Map.empty, blocked = False, exhausted = False\<rparr>"
        and h = "[''fire'', ''water'']"] t
  show ?thesis by simp
qed

text \<open>
  Claim C6. For a term that is empty or consists of white space only, recording it
  returns the state as it was (history and storage included), and submitting it finishes
  without a call of the provider, with the prompt message as the error and no
  translations; history and storage stay as they were.
\<close>

theorem blank_term_ignored:
  assumes "list_all isWhiteSpace t"
  shows "updateSearchHistory t st = Inr st \<and>
     handleSearch_submit t st =
       Inr (Finished (st\<lparr>error := Some ''Please enter a word to search.'',
                          translationsState := None\<rparr>)) \<and>
     handleSearch fetchTranslations t st =
       Inr (st\<lparr>error := Some ''Please enter a word to search.'', translationsState := None\<rparr>)"
proof -
  from assms have "trim t = []" by (simp add: trim_Nil_iff)
  then show ?thesis
    by (simp add: updateSearchHistory_def handleSearch_submit_def handleSearch_def)
qed

text \<open>The theorem at a term of three spaces.\<close>

theorem blank_term_ignored_witness:
  "list_all isWhiteSpace ''   '' \<and>
   updateSearchHistory ''   ''
     (initialApp \<lparr>items = Map.empty, blocked = False, exhausted = False\<rparr>
        \<lparr>searchHistory := stringArray [''cat'']\<rparr>) =
     Inr (initialApp \<lparr>items = Map.empty, blocked = False, exhausted = False\<rparr>
        \<lparr>searchHistory := stringArray [''cat'']\<rparr>) \<and>
   handleSearch (\<lambda>w. Rejected (NotAnError JNull)) ''   ''
     (initialApp \<lparr>items = Map.empty, blocked = False, exhausted = False\<rparr>
        \<lparr>searchHistory := stringArray [''cat'']\<rparr>) =
     Inr (initialApp \<lparr>items = Map.empty, blocked = False, exhausted = False\<rparr>
        \<lparr>searchHistory := stringArray [''cat''],
          error := Some ''Please enter a word to search.'', translationsState := None\<rparr>)"
proof -
  have w: "list_all isWhiteSpace ''   ''" by (simp add: isWhiteSpace_def)
  from blank_term_ignored [OF w] w show ?thesis by simp
qed

section \<open>Clearing and loading\<close>




text \<open>
  Claim C8. Loading always returns a state and never an error, and leaves the storage as
  it was. When reading the storage throws, or the stored text is not empty and parsing it
  throws, the history is the empty array. When the stored text parses to an array of
  strings, that array is the history. When nothing or the empty text is stored, the state
  is unchanged.
\<close>

theorem load_falls_back:
  "\<exists>st'. loadHistory JSON_parse st = Inr st' \<and>
     storage st' = storage st \<and>
     (\<forall>e. getItem LOCAL_STORAGE_HISTORY_KEY (storage st) = Inl e \<longrightarrow>
        st' = st\<lparr>searchHistory := JArr []\<rparr>) \<and>
     (\<forall>s e. getItem LOCAL_STORAGE_HISTORY_KEY (storage st) = Inr (Some s) \<and> s \<noteq> [] \<and>
        JSON_parse s = Inl e \<longrightarrow> st' = st\<lparr>searchHistory := JArr []\<rparr>) \<and>
     (\<forall>s h. getItem LOCAL_STORAGE_HISTORY_KEY (storage st) = Inr (Some s) \<and> s \<noteq> [] \<and>
        JSON_parse s = Inr (stringArray h) \<longrightarrow> st' = st\<lparr>searchHistory := stringArray h\<rparr>) \<and>
     (getItem LOCAL_STORAGE_HISTORY_KEY (storage st) = Inr None \<or>
      getItem LOCAL_STORAGE_HISTORY_KEY (storage st) = Inr (Some []) \<longrightarrow> st' = st)"
  by (auto simp: loadHistory_def loadHistory_try_def split: sum.splits option.splits)

text \<open>The theorem at a storage that refuses the access and at one holding a broken text.\<close>

theorem load_falls_back_witness:
  "getItem LOCAL_STORAGE_HISTORY_KEY
      \<lparr>items = Map.empty, blocked = True, exhausted = False\<rparr> = Inl SecurityError \<and>
   loadHistory (\<lambda>s. Inl SyntaxError)
      (initialApp \<lparr>items = Map.empty, blocked = True, exhausted = False\<rparr>) =
     Inr (initialApp \<lparr>items = Map.empty, blocked = True, exhausted = False\<rparr>) \<and>
   getItem LOCAL_STORAGE_HISTORY_KEY
      \<lparr>items = [LOCAL_STORAGE_HISTORY_KEY \<mapsto> ''[broken''], blocked = False, exhausted = False\<rparr> =
     Inr (Some ''[broken'') \<and>
   loadHistory (\<lambda>s. Inl SyntaxError)
      (initialApp \<lparr>items = [LOCAL_STORAGE_HISTORY_KEY \<mapsto> ''[broken''],
                     blocked = False, exhausted = False\<rparr>) =
     Inr (initialApp \<lparr>items = [LOCAL_STORAGE_HISTORY_KEY \<mapsto> ''[broken''],
                     blocked = False, exhausted = False\<rparr>)"
proof -
  let ?blocked = "\<lparr>items = Map.empty, blocked = True, exhausted = False\<rparr>"
  let ?broken = "\<lparr>items = [LOCAL_STORAGE_HISTORY_KEY \<mapsto> ''[broken''],
                  blocked = False, exhausted = False\<rparr>"
  have g1: "getItem LOCAL_STORAGE_HISTORY_KEY ?blocked = Inl SecurityError"
    by (simp add: getItem_def)
  have g2: "getItem LOCAL_STORAGE_HISTORY_KEY ?broken = Inr (Some ''[broken'')"
    by (simp add: getItem_def)
  from load_falls_back [of "\<lambda>s. Inl SyntaxError" "initialApp ?blocked"] g1
  have "loadHistory (\<lambda>s. Inl SyntaxError) (initialApp ?blocked) = Inr (initialApp ?blocked)"
    by (auto simp: initialApp_def)
  moreover from load_falls_back [of "\<lambda>s. Inl SyntaxError" "initialApp ?broken"] g2
  have "loadHistory (\<lambda>s. Inl SyntaxError) (initialApp ?broken) = Inr (initialApp ?broken)"
    by (auto simp: initialApp_def)
  ultimately show ?thesis using g1 g2 by simp
qed

text \<open>
  Claim C10. Loading checks nothing about the parsed value: whenever the stored text is
  present, not empty and parses, the parsed value becomes the history as it is.
\<close>

theorem load_installs_parsed_value:
  assumes "getItem LOCAL_STORAGE_HISTORY_KEY (storage st) = Inr (Some s)"
    and "s \<noteq> []" and "JSON_parse s = Inr v"
  shows "loadHistory JSON_parse st = Inr (st\<lparr>searchHistory := v\<rparr>)"
  using assms by (simp add: loadHistory_def loadHistory_try_def)

text \<open>
  The theorem at a stored "null", which is not an array, and at a stored array of eleven
  strings of which two are equal ignoring case.
\<close>

theorem load_installs_parsed_value_witness:
  "loadHistory (\<lambda>s. if s = ''null'' then Inr JNull else Inl SyntaxError)
     (initialApp \<lparr>items = [LOCAL_STORAGE_HISTORY_KEY \<mapsto> ''null''],
                   blocked = False, exhausted = False\<rparr>) =
   Inr (initialApp \<lparr>items = [LOCAL_STORAGE_HISTORY_KEY \<mapsto> ''null''],
                   blocked = False, exhausted = False\<rparr>
          \<lparr>searchHistory := JNull\<rparr>) \<and>
   loadHistory
     (\<lambda>s. if s = JSON_stringify [''a'', ''A'', ''c'', ''d'', ''e'', ''f'', ''g'', ''h'', ''i'', ''j'', ''k'']
           then Inr (stringArray [''a'', ''A'', ''c'', ''d'', ''e'', ''f'', ''g'', ''h'', ''i'', ''j'', ''k''])
           else Inl SyntaxError)
     (initialApp \<lparr>items = [LOCAL_STORAGE_HISTORY_KEY \<mapsto>
                     JSON_stringify [''a'', ''A'', ''c'', ''d'', ''e'', ''f'', ''g'', ''h'', ''i'', ''j'', ''k'']],
                   blocked = False, exhausted = False\<rparr>) =
   Inr (initialApp \<lparr>items = [LOCAL_STORAGE_HISTORY_KEY \<mapsto>
                     JSON_stringify [''a'', ''A'', ''c'', ''d'', ''e'', ''f'', ''g'', ''h'', ''i'', ''j'', ''k'']],
                   blocked = False, exhausted = False\<rparr>
          \<lparr>searchHistory :=
             stringArray [''a'', ''A'', ''c'', ''d'', ''e'', ''f'', ''g'', ''h'', ''i'', ''j'', ''k'']\<rparr>) \<and>
   MAX_HISTORY_ITEMS < length [''a'', ''A'', ''c'', ''d'', ''e'', ''f'', ''g'', ''h'', ''i'', ''j'', ''k''] \<and>
   toLowerCase ''a'' = toLowerCase ''A''"
proof -
  let ?h = "[''a'', ''A'', ''c'', ''d'', ''e'', ''f'', ''g'', ''h'', ''i'', ''j'', ''k'']"
  let ?l1 = "\<lparr>items = [LOCAL_STORAGE_HISTORY_KEY \<mapsto> ''null''], blocked = False, exhausted = False\<rparr>"
  let ?l2 = "\<lparr>items = [LOCAL_STORAGE_HISTORY_KEY \<mapsto> JSON_stringify ?h],
              blocked = False, exhausted = False\<rparr>"
  have n: "JSON_stringify ?h \<noteq> []" by (simp add: JSON_stringify_def)
  have g1: "getItem LOCAL_STORAGE_HISTORY_KEY (storage (initialApp ?l1)) = Inr (Some ''null'')"
    by (simp add: getItem_def initialApp_def)
  have g2: "getItem LOCAL_STORAGE_HISTORY_KEY (storage (initialApp ?l2)) = Inr (Some (JSON_stringify ?h))"
    by (simp add: getItem_def initialApp_def)
  have c: "toLowerCase ''a'' = toLowerCase ''A''" by code_simp
  have m: "MAX_HISTORY_ITEMS < length ?h" by (simp add: MAX_HISTORY_ITEMS_def)
  from load_installs_parsed_value [OF g1, of "\<lambda>s. if s = ''null'' then Inr JNull else Inl SyntaxError" JNull]
    load_installs_parsed_value [OF g2 n,
      of "\<lambda>s. if s = JSON_stringify ?h then Inr (stringArray ?h) else Inl SyntaxError" "stringArray ?h"]
    c m
  show ?thesis by simp
qed

section \<open>The outcome of a search\<close>




end
